theory Spec2Isabelle
  imports Main "HOL-Library.Sublist"
begin

section \<open>Go string primitives used by the plugin\<close>

text \<open>
  Go strings are byte sequences; they are modelled as \<open>string\<close> (a list of characters).
  \<open>strings.HasSuffix(s, suffix)\<close> is
  \<^verbatim>\<open>len(s) >= len(suffix) && s[len(s)-len(suffix):] == suffix\<close>.
\<close>

definition HasSuffix :: "string \<Rightarrow> string \<Rightarrow> bool" where
  "HasSuffix s suf \<longleftrightarrow> length suf \<le> length s \<and> drop (length s - length suf) s = suf"

text \<open>
  \<open>strings.HasPrefix(s, p)\<close> is \<^verbatim>\<open>len(s) >= len(p) && s[:len(p)] == p\<close>.
\<close>

definition HasPrefix :: "string \<Rightarrow> string \<Rightarrow> bool" where
  "HasPrefix s p \<longleftrightarrow> length p \<le> length s \<and> take (length p) s = p"

text \<open>
  \<open>strings.Contains(s, substr)\<close>: some position of \<open>s\<close> (the end included, for the empty
  \<open>substr\<close>) starts an occurrence of \<open>substr\<close>.
\<close>

fun Contains :: "string \<Rightarrow> string \<Rightarrow> bool" where
  "Contains [] sub = (sub = [])"
| "Contains (c # cs) sub = (HasPrefix (c # cs) sub \<or> Contains cs sub)"

text \<open>
  \<open>strings.ReplaceAll(s, old, new)\<close> replaces the non-overlapping occurrences of \<open>old\<close>,
  scanning from the left. For an empty \<open>old\<close> Go inserts \<open>new\<close> before every
  character and at the end; every call of the plugin passes a non-empty literal.
\<close>

function ReplaceAll :: "string \<Rightarrow> string \<Rightarrow> string \<Rightarrow> string" where
  "ReplaceAll [] old new = (if old = [] then new else [])"
| "ReplaceAll (c # cs) old new =
     (if old = [] then new @ c # ReplaceAll cs old new
      else if HasPrefix (c # cs) old then new @ ReplaceAll (drop (length old) (c # cs)) old new
      else c # ReplaceAll cs old new)"
  by pat_completeness auto
termination
  by (relation "measure (\<lambda>(s, old, new). length s)") auto

section \<open>Release context and tag templates (plugin.go)\<close>

text \<open>The fields of \<open>plugin.ReleaseContext\<close> that the plugin reads.\<close>

record ReleaseContext =
  Version :: string
  PreviousVersion :: string
  TagName :: string
  Branch :: string
  ReleaseType :: string

text \<open>
  \<open>processTemplate\<close>: a template with the marker \<open>{{if\<close> yields the empty string; otherwise
  the four placeholders are replaced in turn, and the branch placeholder only when the
  branch is not empty (with every \<open>/\<close> of the branch turned into \<open>-\<close>).
\<close>

definition processTemplate :: "string \<Rightarrow> ReleaseContext \<Rightarrow> string" where
  "processTemplate tmpl ctx =
     (if Contains tmpl ''{{if'' then ''''
      else
        let result = ReplaceAll tmpl ''{{.Version}}'' (Version ctx);
            result = ReplaceAll result ''{{.PreviousVersion}}'' (PreviousVersion ctx);
            result = ReplaceAll result ''{{.TagName}}'' (TagName ctx);
            result = ReplaceAll result ''{{.ReleaseType}}'' (ReleaseType ctx)
        in if Branch ctx \<noteq> ''''
           then let safeBranch = ReplaceAll (Branch ctx) ''/'' ''-''
                in ReplaceAll result ''{{.Branch}}'' safeBranch
           else result)"

text \<open>
  \<open>processTags\<close>: the loop appends every non-empty result to \<open>processed\<close>, which starts
  empty. \<open>processTags_loop\<close> is the loop with its accumulator.
\<close>

fun processTags_loop :: "string list \<Rightarrow> ReleaseContext \<Rightarrow> string list \<Rightarrow> string list" where
  "processTags_loop [] ctx processed = processed"
| "processTags_loop (tag # tags) ctx processed =
     (let result = processTemplate tag ctx
      in if result \<noteq> '''' then processTags_loop tags ctx (processed @ [result])
         else processTags_loop tags ctx processed)"

definition processTags :: "string list \<Rightarrow> ReleaseContext \<Rightarrow> string list" where
  "processTags tags ctx = processTags_loop tags ctx []"

section \<open>External processes\<close>

text \<open>
  A Go \<open>error\<close> is a message, possibly wrapping a cause: \<open>New\<close> is an error that only
  carries its message (what \<open>fmt.Errorf\<close> without \<open>%w\<close> and a failed process give),
  \<open>Wrap\<close> is the result of \<open>fmt.Errorf\<close> with one \<open>%w\<close> verb. \<open>Error\<close> is the method
  \<open>Error()\<close>.
\<close>

datatype error = New string | Wrap string error

fun Error :: "error \<Rightarrow> string" where
  "Error (New m) = m"
| "Error (Wrap m e) = m"

text \<open>
  \<open>Errorf_w pre err post\<close> is \<open>fmt.Errorf\<close> for a format with one \<open>%w\<close>: \<open>pre\<close> is the
  text before the verb and \<open>post\<close> the text that the rest of the format produces.
\<close>

definition Errorf_w :: "string \<Rightarrow> error \<Rightarrow> string \<Rightarrow> error" where
  "Errorf_w pre err post = Wrap (pre @ Error err @ post) err"

text \<open>
  An \<open>exec.Cmd\<close> as built by \<open>exec.CommandContext(ctx, name, arg...)\<close>: the program, its
  argument list and what is connected to its standard input (\<open>None\<close> when \<open>Stdin\<close> is left
  nil).
\<close>

record Cmd =
  Name :: string
  Arg :: "string list"
  Stdin :: "string option"

definition CommandContext :: "string \<Rightarrow> string list \<Rightarrow> Cmd" where
  "CommandContext name arg = \<lparr>Name = name, Arg = arg, Stdin = None\<rparr>"

text \<open>
  The outside world decides what an invocation returns: given the invocations made so far
  and the command, the combined output and the error (\<open>None\<close> for exit status zero). A
  cancelled context is one way for the error to be present. The state of a run is the
  list of invocations made so far and the lines written by \<open>fmt.Printf\<close>.
\<close>

type_synonym world = "Cmd list \<Rightarrow> Cmd \<Rightarrow> string \<times> error option"

record sys =
  Trace :: "Cmd list"
  Stdout :: "string list"

definition CombinedOutput :: "world \<Rightarrow> Cmd \<Rightarrow> sys \<Rightarrow> (string \<times> error option) \<times> sys" where
  "CombinedOutput w cmd s = (w (Trace s) cmd, s\<lparr>Trace := Trace s @ [cmd]\<rparr>)"

definition Printf :: "string \<Rightarrow> sys \<Rightarrow> sys" where
  "Printf line s = s\<lparr>Stdout := Stdout s @ [line]\<rparr>"

section \<open>The registry client (client.go)\<close>

record AuthConfig =
  Method :: string
  ClientID :: string
  ClientSecret :: string
  TenantID :: string
  Username :: string
  Password :: string

record ACRClient =
  registry :: string

definition NewACRClient :: "string \<Rightarrow> ACRClient" where
  "NewACRClient r = \<lparr>registry = r\<rparr>"

definition GetRegistryURL :: "ACRClient \<Rightarrow> string" where
  "GetRegistryURL c =
     (if HasSuffix (registry c) ''.azurecr.io'' then registry c
      else registry c @ ''.azurecr.io'')"

definition authenticateAzureCLI :: "world \<Rightarrow> ACRClient \<Rightarrow> sys \<Rightarrow> error option \<times> sys" where
  "authenticateAzureCLI w c s =
     (let cmd = CommandContext ''az'' [''acr'', ''login'', ''--name'', registry c];
          ((output, err), s) = CombinedOutput w cmd s
      in case err of
           Some e \<Rightarrow> (Some (Errorf_w ''az acr login failed: '' e (CHR 0x0A # output)), s)
         | None \<Rightarrow> (None, s))"

definition authenticateServicePrincipal ::
  "world \<Rightarrow> ACRClient \<Rightarrow> AuthConfig \<Rightarrow> sys \<Rightarrow> error option \<times> sys" where
  "authenticateServicePrincipal w c auth s =
     (let loginCmd = CommandContext ''az''
            [''login'', ''--service-principal'', ''-u'', ClientID auth,
             ''-p'', ClientSecret auth, ''--tenant'', TenantID auth];
          ((output, err), s) = CombinedOutput w loginCmd s
      in case err of
           Some e \<Rightarrow> (Some (Errorf_w ''azure login failed: '' e (CHR 0x0A # output)), s)
         | None \<Rightarrow> authenticateAzureCLI w c s)"

definition authenticateAdmin ::
  "world \<Rightarrow> ACRClient \<Rightarrow> AuthConfig \<Rightarrow> sys \<Rightarrow> error option \<times> sys" where
  "authenticateAdmin w c auth s =
     (let cmd = CommandContext ''docker''
            [''login'', GetRegistryURL c, ''-u'', Username auth, ''--password-stdin''];
          cmd = cmd\<lparr>Stdin := Some (Password auth)\<rparr>;
          ((output, err), s) = CombinedOutput w cmd s
      in case err of
           Some e \<Rightarrow> (Some (Errorf_w ''docker login failed: '' e (CHR 0x0A # output)), s)
         | None \<Rightarrow> (None, s))"

definition authenticateManagedIdentity :: "world \<Rightarrow> ACRClient \<Rightarrow> sys \<Rightarrow> error option \<times> sys" where
  "authenticateManagedIdentity w c s =
     (let cmd = CommandContext ''az'' [''acr'', ''login'', ''--name'', registry c];
          ((output, err), s) = CombinedOutput w cmd s
      in case err of
           Some e \<Rightarrow>
             (Some (Errorf_w ''az acr login with managed identity failed: '' e
                      (CHR 0x0A # output)), s)
         | None \<Rightarrow> (None, s))"

text \<open>\<open>Authenticate\<close>: a nil \<open>auth\<close> (\<open>None\<close>) stands for the method \<open>azure_cli\<close>.\<close>

definition Authenticate ::
  "world \<Rightarrow> ACRClient \<Rightarrow> AuthConfig option \<Rightarrow> sys \<Rightarrow> error option \<times> sys" where
  "Authenticate w c auth s =
     (let auth = (case auth of
                    None \<Rightarrow> \<lparr>Method = ''azure_cli'', ClientID = '''', ClientSecret = '''',
                             TenantID = '''', Username = '''', Password = ''''\<rparr>
                  | Some a \<Rightarrow> a)
      in if Method auth = ''azure_cli'' \<or> Method auth = '''' then authenticateAzureCLI w c s
         else if Method auth = ''service_principal'' then authenticateServicePrincipal w c auth s
         else if Method auth = ''admin'' then authenticateAdmin w c auth s
         else if Method auth = ''managed_identity'' then authenticateManagedIdentity w c s
         else (Some (New (''unknown auth method: '' @ Method auth)), s))"

section \<open>The container tool client\<close>

text \<open>
  Modelled from the spec: \<open>docker.go\<close>, which defines \<open>DockerClient\<close> with \<open>NewDockerClient\<close>,
  \<open>Tag\<close> and \<open>Push\<close>, is not among the sources (only its test is). The specification lists
  the two invocations as "container-tool tag source target" and "container-tool push
  target", each failing with an error that wraps the output of the failed invocation; the
  container tool is \<open>docker\<close>, as in \<open>authenticateAdmin\<close>. The wording of the two error
  messages is not given by the specification and follows the pattern of \<open>client.go\<close>;
  nothing below depends on it. \<open>NewDockerClient\<close> only builds the client value and makes
  no invocation, so it has no counterpart here.
\<close>

definition Tag :: "world \<Rightarrow> string \<Rightarrow> string \<Rightarrow> sys \<Rightarrow> error option \<times> sys" where
  "Tag w source target s =
     (let cmd = CommandContext ''docker'' [''tag'', source, target];
          ((output, err), s) = CombinedOutput w cmd s
      in case err of
           Some e \<Rightarrow> (Some (Errorf_w ''docker tag failed: '' e (CHR 0x0A # output)), s)
         | None \<Rightarrow> (None, s))"

definition Push :: "world \<Rightarrow> string \<Rightarrow> sys \<Rightarrow> error option \<times> sys" where
  "Push w target s =
     (let cmd = CommandContext ''docker'' [''push'', target];
          ((output, err), s) = CombinedOutput w cmd s
      in case err of
           Some e \<Rightarrow> (Some (Errorf_w ''docker push failed: '' e (CHR 0x0A # output)), s)
         | None \<Rightarrow> (None, s))"

section \<open>Configuration (plugin.go)\<close>

text \<open>
  The values of a raw configuration map (\<open>map[string]any\<close>) that the plugin looks at:
  strings, booleans, slices (\<open>[]string\<close> and \<open>[]any\<close>) and nested maps.
\<close>

datatype any =
    AString string
  | ABool bool
  | AStrings "string list"
  | ASlice "any list"
  | AMap "string \<Rightarrow> any option"

type_synonym raw = "string \<Rightarrow> any option"

text \<open>The process environment, as \<open>os.Getenv\<close> reads it: an unset variable is the empty string.\<close>

type_synonym env = "string \<Rightarrow> string"

text \<open>
  Modelled from the spec: the configuration parser and the validation builder belong to the
  plugin SDK (package \<open>helpers\<close>), which is not among the sources. The specification
  describes every key as optional with a default (section 6) and the validation result as
  the list of all field-scoped messages (section 7); the tests of the plugin fix the rest:
  an absent key gives the default, a \<open>[]any\<close> of strings gives the tag list, \<open>dry_run\<close> is read
  as a boolean. \<open>GetString key envVar default\<close> takes the value of the key when it is a
  non-empty string, else the environment variable when one is named and set, else the
  default.
\<close>

definition GetString :: "env \<Rightarrow> raw \<Rightarrow> string \<Rightarrow> string \<Rightarrow> string \<Rightarrow> string" where
  "GetString getenv r key envVar defaultVal =
     (case r key of
        Some (AString v) \<Rightarrow>
          if v \<noteq> '''' then v
          else if envVar \<noteq> '''' \<and> getenv envVar \<noteq> '''' then getenv envVar
          else defaultVal
      | _ \<Rightarrow>
          if envVar \<noteq> '''' \<and> getenv envVar \<noteq> '''' then getenv envVar
          else defaultVal)"

fun strings_of :: "any list \<Rightarrow> string list" where
  "strings_of [] = []"
| "strings_of (AString v # xs) = v # strings_of xs"
| "strings_of (x # xs) = strings_of xs"

definition GetStringSlice :: "raw \<Rightarrow> string \<Rightarrow> string list \<Rightarrow> string list" where
  "GetStringSlice r key defaultVal =
     (case r key of
        Some (AStrings vs) \<Rightarrow> vs
      | Some (ASlice xs) \<Rightarrow> strings_of xs
      | _ \<Rightarrow> defaultVal)"

definition GetBool :: "raw \<Rightarrow> string \<Rightarrow> bool \<Rightarrow> bool" where
  "GetBool r key defaultVal = (case r key of Some (ABool b) \<Rightarrow> b | _ \<Rightarrow> defaultVal)"

record ValidationError =
  Field :: string
  Message :: string

record ValidateResponse =
  Valid :: bool
  Errors :: "ValidationError list"

definition NewValidationBuilder :: "ValidationError list" where
  "NewValidationBuilder = []"

definition AddError :: "ValidationError list \<Rightarrow> string \<Rightarrow> string \<Rightarrow> ValidationError list" where
  "AddError vb field msg = vb @ [\<lparr>Field = field, Message = msg\<rparr>]"

definition Build :: "ValidationError list \<Rightarrow> ValidateResponse" where
  "Build vb = \<lparr>Valid = (vb = []), Errors = vb\<rparr>"

text \<open>
  The struct \<open>Config\<close>. Its credential fields carry the suffix \<open>_cfg\<close>, since \<open>AuthConfig\<close> has
  fields of the same names.
\<close>

record Config =
  Registry :: string
  Repository :: string
  Image :: string
  AuthMethod :: string
  ClientID_cfg :: string
  ClientSecret_cfg :: string
  TenantID_cfg :: string
  Username_cfg :: string
  Password_cfg :: string
  SourceImage :: string
  Tags :: "string list"
  DryRun :: bool

definition parseConfig :: "env \<Rightarrow> raw \<Rightarrow> Config" where
  "parseConfig getenv r =
     (let tags = GetStringSlice r ''tags'' [];
          tags = (if length tags = 0 then [''{{.Version}}''] else tags);
          (authMethod, clientID, clientSecret, tenantID, username, password) =
            (case r ''auth'' of
               Some (AMap authRaw) \<Rightarrow>
                 (GetString getenv authRaw ''method'' '''' ''azure_cli'',
                  GetString getenv authRaw ''client_id'' ''AZURE_CLIENT_ID'' '''',
                  GetString getenv authRaw ''client_secret'' ''AZURE_CLIENT_SECRET'' '''',
                  GetString getenv authRaw ''tenant_id'' ''AZURE_TENANT_ID'' '''',
                  GetString getenv authRaw ''username'' ''ACR_USERNAME'' '''',
                  GetString getenv authRaw ''password'' ''ACR_PASSWORD'' '''')
             | _ \<Rightarrow> (''azure_cli'', '''', '''', '''', '''', ''''))
      in \<lparr>Registry = GetString getenv r ''registry'' '''' '''',
          Repository = GetString getenv r ''repository'' '''' '''',
          Image = GetString getenv r ''image'' '''' '''',
          AuthMethod = authMethod,
          ClientID_cfg = clientID,
          ClientSecret_cfg = clientSecret,
          TenantID_cfg = tenantID,
          Username_cfg = username,
          Password_cfg = password,
          SourceImage = GetString getenv r ''source_image'' '''' '''',
          Tags = tags,
          DryRun = GetBool r ''dry_run'' False\<rparr>)"

text \<open>
  \<open>Validate\<close> collects the errors in the order of its checks. Its second result, the Go
  error, is always nil and is left out.
\<close>

definition Validate :: "env \<Rightarrow> raw \<Rightarrow> ValidateResponse" where
  "Validate getenv config =
     (let vb = NewValidationBuilder;
          cfg = parseConfig getenv config;
          vb = (if Registry cfg = '''' then AddError vb ''registry'' ''ACR registry name is required''
                else vb);
          vb = (if Image cfg = '''' then AddError vb ''image'' ''image name is required'' else vb);
          vb = (if SourceImage cfg = ''''
                then AddError vb ''source_image'' ''source image is required'' else vb);
          validMethods = [''azure_cli'', ''service_principal'', ''admin'', ''managed_identity'', ''''];
          isValidMethod = list_ex (\<lambda>m. AuthMethod cfg = m) validMethods;
          vb = (if \<not> isValidMethod
                then AddError vb ''auth.method''
                  (''auth method must be '' @ [CHR 0x27] @ ''azure_cli'' @ [CHR 0x27] @ '', '' @
                   [CHR 0x27] @ ''service_principal'' @ [CHR 0x27] @ '', '' @
                   [CHR 0x27] @ ''admin'' @ [CHR 0x27] @ '', or '' @
                   [CHR 0x27] @ ''managed_identity'' @ [CHR 0x27])
                else vb);
          vb = (if AuthMethod cfg = ''service_principal''
                then (if ClientID_cfg cfg = '''' \<or> ClientSecret_cfg cfg = '''' \<or> TenantID_cfg cfg = ''''
                      then AddError vb ''auth''
                        ''service principal requires client_id, client_secret, and tenant_id''
                      else vb)
                else vb);
          vb = (if AuthMethod cfg = ''admin''
                then (if Username_cfg cfg = '''' \<or> Password_cfg cfg = ''''
                      then AddError vb ''auth'' ''admin auth requires username and password''
                      else vb)
                else vb)
      in Build vb)"

section \<open>Execute (plugin.go)\<close>

record ExecuteRequest =
  Config_req :: raw
  Context_req :: ReleaseContext
  DryRun_req :: bool

record ExecuteResponse =
  Success :: bool
  Message_resp :: string
  Outputs :: "string \<Rightarrow> any option"

text \<open>The verb \<open>%d\<close> of \<open>fmt.Sprintf\<close> on a length: decimal digits.\<close>

function itoa :: "nat \<Rightarrow> string" where
  "itoa n = (if n < 10 then [''0123456789'' ! n] else itoa (n div 10) @ [''0123456789'' ! (n mod 10)])"
  by pat_completeness auto
termination
  by (relation "measure (\<lambda>n. n)") auto

text \<open>
  The target reference of one tag, as the body of the loop builds it: the image path is
  \<open>repository/image\<close> when a repository is configured, and the reference is
  \<open>registryURL/imagePath:tag\<close>.
\<close>

definition targetImage :: "Config \<Rightarrow> string \<Rightarrow> string \<Rightarrow> string" where
  "targetImage cfg registryURL tag =
     (let imagePath = (if Repository cfg \<noteq> '''' then Repository cfg @ ''/'' @ Image cfg
                       else Image cfg)
      in registryURL @ ''/'' @ imagePath @ '':'' @ tag)"

text \<open>
  The loop over the tags, with \<open>pushedImages\<close> as accumulator. A failing \<open>Tag\<close> or \<open>Push\<close>
  returns from \<open>Execute\<close> with the wrapped error.
\<close>

fun push_loop ::
  "world \<Rightarrow> Config \<Rightarrow> string \<Rightarrow> string list \<Rightarrow> string list \<Rightarrow> sys \<Rightarrow> (error + string list) \<times> sys"
where
  "push_loop w cfg registryURL [] pushedImages s = (Inr pushedImages, s)"
| "push_loop w cfg registryURL (tag # tags) pushedImages s =
     (if tag = '''' then push_loop w cfg registryURL tags pushedImages s
      else
        let target = targetImage cfg registryURL tag
        in if DryRun cfg then
             let s = Printf (''[dry-run] Would tag '' @ SourceImage cfg @ '' as '' @ target @ [CHR 0x0A]) s;
                 s = Printf (''[dry-run] Would push '' @ target @ [CHR 0x0A]) s
             in push_loop w cfg registryURL tags (pushedImages @ [target]) s
           else
             case Tag w (SourceImage cfg) target s of
               (Some e, s) \<Rightarrow> (Inl (Errorf_w ''failed to tag image: '' e ''''), s)
             | (None, s) \<Rightarrow>
                 (case Push w target s of
                    (Some e, s) \<Rightarrow> (Inl (Errorf_w ''failed to push image: '' e ''''), s)
                  | (None, s) \<Rightarrow>
                      let s = Printf (''Pushed: '' @ target @ [CHR 0x0A]) s
                      in push_loop w cfg registryURL tags (pushedImages @ [target]) s))"

definition Execute ::
  "world \<Rightarrow> env \<Rightarrow> ExecuteRequest \<Rightarrow> sys \<Rightarrow> (error + ExecuteResponse) \<times> sys" where
  "Execute w getenv req s =
     (let cfg = parseConfig getenv (Config_req req);
          cfg = cfg\<lparr>DryRun := DryRun cfg \<or> DryRun_req req\<rparr>;
          tags = processTags (Tags cfg) (Context_req req);
          client = NewACRClient (Registry cfg);
          (autherr, s) =
            (if \<not> DryRun cfg then
               let authCfg = \<lparr>Method = AuthMethod cfg, ClientID = ClientID_cfg cfg,
                              ClientSecret = ClientSecret_cfg cfg, TenantID = TenantID_cfg cfg,
                              Username = Username_cfg cfg, Password = Password_cfg cfg\<rparr>
               in Authenticate w client (Some authCfg) s
             else (None, s))
      in case autherr of
           Some e \<Rightarrow> (Inl (Errorf_w ''failed to authenticate with ACR: '' e ''''), s)
         | None \<Rightarrow>
             let registryURL = GetRegistryURL client
             in (case push_loop w cfg registryURL tags [] s of
                  (Inl e, s) \<Rightarrow> (Inl e, s)
                | (Inr pushedImages, s) \<Rightarrow>
                    (Inr \<lparr>Success = True,
                          Message_resp = ''Successfully pushed '' @ itoa (length pushedImages) @
                                         '' image(s) to ACR'',
                          Outputs = [''registry'' \<mapsto> AString registryURL,
                                     ''repository'' \<mapsto> AString (Repository cfg),
                                     ''tags'' \<mapsto> AStrings tags,
                                     ''pushed_images'' \<mapsto> AStrings pushedImages]\<rparr>, s)))"

section \<open>Notions used in the statements\<close>

text \<open>
  Two strings agree when one is a prefix of the other. \<open>apart old b\<close>: no occurrence of
  \<open>old\<close> in any string can overlap an occurrence of \<open>b\<close> (\<open>old\<close> neither starts inside
  \<open>b\<close> nor runs into it).
\<close>

definition agree :: "string \<Rightarrow> string \<Rightarrow> bool" where
  "agree x y \<longleftrightarrow> prefix x y \<or> prefix y x"

definition apart :: "string \<Rightarrow> string \<Rightarrow> bool" where
  "apart old b \<longleftrightarrow>
     list_all (\<lambda>j. \<not> agree (drop j old) b) [1..<length old] \<and>
     list_all (\<lambda>k. \<not> agree old (drop k b)) [0..<length b]"

text \<open>The methods that the switch of \<open>Authenticate\<close> has a case for.\<close>

definition known_method :: "string \<Rightarrow> bool" where
  "known_method m \<longleftrightarrow>
     m = ''azure_cli'' \<or> m = '''' \<or> m = ''service_principal'' \<or> m = ''admin'' \<or>
     m = ''managed_identity''"

text \<open>
  The invocations that \<open>Authenticate\<close> makes when none fails, and those of the loop of
  \<open>Execute\<close> outside dry-run: for each tag its \<open>docker tag\<close>, then its \<open>docker push\<close>.
\<close>

definition acr_login_cmd :: "ACRClient \<Rightarrow> Cmd" where
  "acr_login_cmd c = CommandContext ''az'' [''acr'', ''login'', ''--name'', registry c]"

definition az_login_cmd :: "AuthConfig \<Rightarrow> Cmd" where
  "az_login_cmd auth = CommandContext ''az''
     [''login'', ''--service-principal'', ''-u'', ClientID auth,
      ''-p'', ClientSecret auth, ''--tenant'', TenantID auth]"

definition docker_login_cmd :: "ACRClient \<Rightarrow> AuthConfig \<Rightarrow> Cmd" where
  "docker_login_cmd c auth =
     \<lparr>Name = ''docker'',
      Arg = [''login'', GetRegistryURL c, ''-u'', Username auth, ''--password-stdin''],
      Stdin = Some (Password auth)\<rparr>"

definition auth_cmds :: "ACRClient \<Rightarrow> AuthConfig \<Rightarrow> Cmd list" where
  "auth_cmds c auth =
     (if Method auth = ''azure_cli'' \<or> Method auth = '''' then [acr_login_cmd c]
      else if Method auth = ''service_principal'' then [az_login_cmd auth, acr_login_cmd c]
      else if Method auth = ''admin'' then [docker_login_cmd c auth]
      else if Method auth = ''managed_identity'' then [acr_login_cmd c]
      else [])"

definition tag_cmd :: "string \<Rightarrow> string \<Rightarrow> Cmd" where
  "tag_cmd source target = CommandContext ''docker'' [''tag'', source, target]"

definition push_cmd :: "string \<Rightarrow> Cmd" where
  "push_cmd target = CommandContext ''docker'' [''push'', target]"

definition planned :: "Config \<Rightarrow> string \<Rightarrow> string list \<Rightarrow> Cmd list" where
  "planned cfg registryURL tags =
     concat (map (\<lambda>tag. [tag_cmd (SourceImage cfg) (targetImage cfg registryURL tag),
                          push_cmd (targetImage cfg registryURL tag)]) tags)"

text \<open>
  The credentials that \<open>Execute\<close> hands to \<open>Authenticate\<close>, and all the invocations of a run
  of \<open>Execute\<close> outside dry-run in which none fails: those of the authentication, then
  those of the resolved tags in their order.
\<close>

definition authCfg_of :: "Config \<Rightarrow> AuthConfig" where
  "authCfg_of cfg =
     \<lparr>Method = AuthMethod cfg, ClientID = ClientID_cfg cfg, ClientSecret = ClientSecret_cfg cfg,
      TenantID = TenantID_cfg cfg, Username = Username_cfg cfg, Password = Password_cfg cfg\<rparr>"

definition expected_cmds :: "env \<Rightarrow> ExecuteRequest \<Rightarrow> Cmd list" where
  "expected_cmds getenv req =
     (let cfg = parseConfig getenv (Config_req req);
          client = NewACRClient (Registry cfg)
      in auth_cmds client (authCfg_of cfg) @
         planned cfg (GetRegistryURL client) (processTags (Tags cfg) (Context_req req)))"

text \<open>
  \<open>succeeded w T i\<close>: in the trace \<open>T\<close>, the world \<open>w\<close> let invocation number \<open>i\<close> succeed.
  \<open>run_cmds w T cs\<close> issues the commands \<open>cs\<close> in order after the trace \<open>T\<close> and stops
  after the first one that fails: it returns the trace and whether all succeeded.
\<close>

definition succeeded :: "world \<Rightarrow> Cmd list \<Rightarrow> nat \<Rightarrow> bool" where
  "succeeded w T i \<longleftrightarrow> snd (w (take i T) (T ! i)) = None"

fun run_cmds :: "world \<Rightarrow> Cmd list \<Rightarrow> Cmd list \<Rightarrow> Cmd list \<times> bool" where
  "run_cmds w T [] = (T, True)"
| "run_cmds w T (c # cs) =
     (case snd (w T c) of
        None \<Rightarrow> run_cmds w (T @ [c]) cs
      | Some e \<Rightarrow> (T @ [c], False))"

section \<open>Concrete inputs\<close>

definition start :: sys where
  "start = \<lparr>Trace = [], Stdout = []\<rparr>"

definition no_env :: env where
  "no_env = (\<lambda>v. '''')"

definition ctx_231 :: ReleaseContext where
  "ctx_231 = \<lparr>Version = ''2.3.1'', PreviousVersion = ''2.3.0'', TagName = ''v2.3.1'',
              Branch = '''', ReleaseType = ''patch''\<rparr>"

text \<open>A world where everything succeeds, one where every \<open>docker push\<close> fails, one where
  every invocation fails.\<close>

definition w_ok :: world where
  "w_ok = (\<lambda>T c. (''ok'', None))"

definition w_push_fails :: world where
  "w_push_fails = (\<lambda>T c. if take 1 (Arg c) = [''push'']
                          then (''denied'', Some (New ''exit status 1''))
                          else (''ok'', None))"

definition w_fail :: world where
  "w_fail = (\<lambda>T c. (''denied'', Some (New ''exit status 1'')))"

definition raw_two_tags :: raw where
  "raw_two_tags = [''registry'' \<mapsto> AString ''myregistry'', ''image'' \<mapsto> AString ''myapp'',
                   ''source_image'' \<mapsto> AString ''myapp:latest'',
                   ''tags'' \<mapsto> ASlice [AString ''1.0.0'', AString ''latest'']]"

definition req_live :: ExecuteRequest where
  "req_live = \<lparr>Config_req = raw_two_tags, Context_req = ctx_231, DryRun_req = False\<rparr>"

definition req_dry :: ExecuteRequest where
  "req_dry = \<lparr>Config_req = raw_two_tags, Context_req = ctx_231, DryRun_req = True\<rparr>"

definition client_my :: ACRClient where
  "client_my = NewACRClient ''myregistry''"

definition auth_admin :: AuthConfig where
  "auth_admin = \<lparr>Method = ''admin'', ClientID = '''', ClientSecret = '''', TenantID = '''',
                 Username = ''admin'', Password = ''s3cret''\<rparr>"

section \<open>Facts about the string primitives\<close>

lemma HasPrefix_iff_prefix: "HasPrefix s p \<longleftrightarrow> prefix p s"
  unfolding HasPrefix_def prefix_def
  by (metis append_eq_conv_conj append_take_drop_id length_append le_add1)

lemma HasSuffix_iff_suffix: "HasSuffix s suf \<longleftrightarrow> suffix suf s"
proof
  assume "HasSuffix s suf"
  then have "s = take (length s - length suf) s @ suf"
    unfolding HasSuffix_def by (metis append_take_drop_id)
  then show "suffix suf s" unfolding suffix_def by blast
next
  assume "suffix suf s"
  then obtain u where "s = u @ suf" unfolding suffix_def by blast
  then show "HasSuffix s suf" unfolding HasSuffix_def by simp
qed

lemma Contains_iff: "Contains s b \<longleftrightarrow> (\<exists>u v. s = u @ b @ v)"
proof (induction s)
  case Nil
  then show ?case by auto
next
  case (Cons c cs)
  show ?case
  proof
    assume "Contains (c # cs) b"
    then consider "prefix b (c # cs)" | "Contains cs b"
      by (auto simp: HasPrefix_iff_prefix)
    then show "\<exists>u v. c # cs = u @ b @ v"
    proof cases
      case 1
      then obtain v where "c # cs = b @ v" by (auto simp: prefix_def)
      then have "c # cs = [] @ b @ v" by simp
      then show ?thesis by blast
    next
      case 2
      then obtain u v where "cs = u @ b @ v" using Cons.IH by blast
      then have "c # cs = (c # u) @ b @ v" by simp
      then show ?thesis by blast
    qed
  next
    assume "\<exists>u v. c # cs = u @ b @ v"
    then obtain u v where uv: "c # cs = u @ b @ v" by blast
    show "Contains (c # cs) b"
    proof (cases u)
      case Nil
      with uv have "prefix b (c # cs)" by (simp add: prefix_def)
      then show ?thesis by (simp add: HasPrefix_iff_prefix)
    next
      case (Cons d ds)
      with uv have "cs = ds @ b @ v" by simp
      then have "Contains cs b" using Cons.IH by blast
      then show ?thesis by simp
    qed
  qed
qed

lemma Contains_nonempty: "Contains s b \<Longrightarrow> b \<noteq> [] \<Longrightarrow> s \<noteq> []"
  by (cases s) auto

lemma prefix_append_agree: "prefix x (y @ z) \<Longrightarrow> agree x y"
  by (auto simp: agree_def prefix_append)

lemma apart_inside: "apart old b \<Longrightarrow> k < length b \<Longrightarrow> \<not> agree old (drop k b)"
  by (simp add: apart_def list_all_iff)

lemma apart_straddle: "apart old b \<Longrightarrow> 0 < j \<Longrightarrow> j < length old \<Longrightarrow> \<not> agree (drop j old) b"
  by (simp add: apart_def list_all_iff)

lemma drop_app: "n \<le> length xs \<Longrightarrow> drop n (xs @ ys) = drop n xs @ ys"
  by simp

text \<open>Inside an occurrence of \<open>b\<close> the scan of \<open>ReplaceAll\<close> finds no match.\<close>

lemma ReplaceAll_inside:
  assumes old: "old \<noteq> []" and ap: "\<forall>k<length b. \<not> agree old (drop k b)"
  shows "k \<le> length b \<Longrightarrow> ReplaceAll (drop k b @ v) old new = drop k b @ ReplaceAll v old new"
proof (induction "length b - k" arbitrary: k)
  case 0
  then show ?case by simp
next
  case (Suc n)
  then have k: "k < length b" by simp
  then have d: "drop k b = b ! k # drop (Suc k) b" by (simp add: Cons_nth_drop_Suc)
  have "\<not> HasPrefix (drop k b @ v) old"
    using ap k prefix_append_agree by (auto simp: HasPrefix_iff_prefix)
  moreover have "ReplaceAll (drop (Suc k) b @ v) old new = drop (Suc k) b @ ReplaceAll v old new"
    using Suc.hyps(1)[of "Suc k"] Suc.hyps(2) k by simp
  ultimately show ?case using old d by simp
qed

text \<open>An occurrence of \<open>b\<close> survives the replacement of a string that cannot overlap it.\<close>

lemma ReplaceAll_keep:
  "old \<noteq> [] \<Longrightarrow> apart old b \<Longrightarrow>
   ReplaceAll (u @ b @ v) old new = ReplaceAll u old new @ b @ ReplaceAll v old new"
proof (induction u old new rule: ReplaceAll.induct)
  case (1 old new)
  have "\<forall>k<length b. \<not> agree old (drop k b)"
    using "1.prems" apart_inside by blast
  from ReplaceAll_inside[OF "1.prems"(1) this, of 0 v new] "1.prems"(1) show ?case by simp
next
  case (2 c cs old new)
  let ?u = "c # cs"
  show ?case
  proof (cases "HasPrefix (?u @ b @ v) old")
    case True
    then have p: "prefix old (?u @ (b @ v))" by (simp add: HasPrefix_iff_prefix)
    have "prefix old ?u"
    proof (rule ccontr)
      assume n: "\<not> prefix old ?u"
      with p obtain us where us: "old = ?u @ us" "prefix us (b @ v)"
        unfolding prefix_append by blast
      with n have ne: "us \<noteq> []" by auto
      from us(1) have "drop (length ?u) old = us" by simp
      moreover have "0 < length ?u" "length ?u < length old" using us(1) ne by auto
      ultimately have "\<not> agree us b" using apart_straddle[OF "2.prems"(2)] by metis
      with us(2) show False using prefix_append_agree by blast
    qed
    then have hp: "HasPrefix ?u old" by (simp add: HasPrefix_iff_prefix)
    then have len: "length old \<le> length ?u" by (simp add: HasPrefix_def)
    have "ReplaceAll (drop (length old) ?u @ b @ v) old new
          = ReplaceAll (drop (length old) ?u) old new @ b @ ReplaceAll v old new"
      using "2.IH"(2) "2.prems" hp by blast
    moreover have "drop (length old) (c # (cs @ b @ v)) = drop (length old) ?u @ b @ v"
      using len drop_app[of "length old" ?u "b @ v"] by (simp del: drop_Suc_Cons)
    ultimately show ?thesis using True hp "2.prems"(1)
      by (simp del: drop_Suc_Cons)
  next
    case False
    then have nhp: "\<not> HasPrefix ?u old"
      using prefix_prefix[of old ?u "b @ v"] by (auto simp: HasPrefix_iff_prefix)
    have "ReplaceAll (cs @ b @ v) old new = ReplaceAll cs old new @ b @ ReplaceAll v old new"
      using "2.IH"(3) "2.prems" nhp by blast
    then show ?thesis using False nhp "2.prems"(1) by simp
  qed
qed

lemma Contains_ReplaceAll:
  "old \<noteq> [] \<Longrightarrow> apart old b \<Longrightarrow> Contains s b \<Longrightarrow> Contains (ReplaceAll s old new) b"
  unfolding Contains_iff using ReplaceAll_keep by blast

lemma apart_Version: "apart ''{{.Version}}'' ''{{.Branch}}''"
  by code_simp

lemma apart_PreviousVersion: "apart ''{{.PreviousVersion}}'' ''{{.Branch}}''"
  by code_simp

lemma apart_TagName: "apart ''{{.TagName}}'' ''{{.Branch}}''"
  by code_simp

lemma apart_ReleaseType: "apart ''{{.ReleaseType}}'' ''{{.Branch}}''"
  by code_simp

section \<open>Tag template resolution\<close>

lemma processTags_loop_eq:
  "processTags_loop tags ctx acc =
   acc @ filter (\<lambda>r. r \<noteq> '''') (map (\<lambda>t. processTemplate t ctx) tags)"
  by (induction tags arbitrary: acc) (simp_all add: Let_def)

lemma processTags_eq:
  "processTags tags ctx = filter (\<lambda>r. r \<noteq> '''') (map (\<lambda>t. processTemplate t ctx) tags)"
  by (simp add: processTags_def processTags_loop_eq)

lemma processTags_nonempty: "filter (\<lambda>t. t \<noteq> '''') (processTags tags ctx) = processTags tags ctx"
  by (simp add: processTags_eq)

lemma processTemplate_no_branch:
  "Branch ctx = '''' \<Longrightarrow> \<not> Contains tmpl ''{{if'' \<Longrightarrow>
   processTemplate tmpl ctx =
   ReplaceAll (ReplaceAll (ReplaceAll (ReplaceAll tmpl ''{{.Version}}'' (Version ctx))
     ''{{.PreviousVersion}}'' (PreviousVersion ctx)) ''{{.TagName}}'' (TagName ctx))
     ''{{.ReleaseType}}'' (ReleaseType ctx)"
  by (simp add: processTemplate_def Let_def)

text \<open>
  C3, as stated: for the template list \<open>["{{version}}"]\<close> and the version \<open>2.3.1\<close> the
  resolved tags are \<open>["2.3.1"]\<close>. The code only knows the placeholder \<open>{{.Version}}\<close>; the
  string \<open>{{version}}\<close> is kept as it is.
\<close>

theorem C3_version_literal_counterexample:
  "processTags [''{{version}}''] ctx_231 = [''{{version}}''] \<and>
   processTags [''{{version}}''] ctx_231 \<noteq> [''2.3.1'']"
  by (simp add: processTags_def processTemplate_def ctx_231_def HasPrefix_def)

text \<open>
  C3, amended: for the template list \<open>["{{.Version}}"]\<close> and a release context whose version
  is \<open>2.3.1\<close>, tag resolution returns exactly \<open>["2.3.1"]\<close>, whatever the other fields of the
  context are.
\<close>

theorem C3_version_template:
  "Version ctx = ''2.3.1'' \<Longrightarrow> processTags [''{{.Version}}''] ctx = [''2.3.1'']"
  by (simp add: processTags_def processTemplate_def HasPrefix_def Let_def)

theorem C3_version_template_witness:
  "Version ctx_231 = ''2.3.1'' \<and> processTags [''{{.Version}}''] ctx_231 = [''2.3.1'']"
proof -
  have h: "Version ctx_231 = ''2.3.1''" by (simp add: ctx_231_def)
  from C3_version_template[OF h] h show ?thesis by simp
qed

text \<open>
  C5: for every list of templates and every context, the resolved tags are the non-empty
  results of the templates, in the order of the templates: the output is the filtered
  list of results, hence a subsequence of the results, it is no longer than the input,
  and it has no empty string.
\<close>

theorem C5_processTags_order_length:
  "processTags tags ctx = filter (\<lambda>r. r \<noteq> '''') (map (\<lambda>t. processTemplate t ctx) tags) \<and>
   subseq (processTags tags ctx) (map (\<lambda>t. processTemplate t ctx) tags) \<and>
   length (processTags tags ctx) \<le> length tags \<and>
   '''' \<notin> set (processTags tags ctx)"
proof -
  let ?rs = "map (\<lambda>t. processTemplate t ctx) tags"
  have e: "processTags tags ctx = filter (\<lambda>r. r \<noteq> '''') ?rs" by (rule processTags_eq)
  have "length (filter (\<lambda>r. r \<noteq> '''') ?rs) \<le> length ?rs" by (rule length_filter_le)
  then have "length (processTags tags ctx) \<le> length tags" using e by simp
  moreover have "subseq (processTags tags ctx) ?rs" using e by simp
  moreover have "'''' \<notin> set (processTags tags ctx)" using e by simp
  ultimately show ?thesis using e by blast
qed

text \<open>
  C6: a template that contains the marker \<open>{{if\<close> resolves to the empty string for every
  context, and tag resolution leaves it out, wherever it stands in the list: the result
  is that of the list without it. Tag resolution has no error result at all.
\<close>

theorem C6_conditional_dropped:
  "Contains tmpl ''{{if'' \<Longrightarrow>
   processTemplate tmpl ctx = '''' \<and>
   processTags (before @ tmpl # after) ctx = processTags (before @ after) ctx"
  by (simp add: processTags_eq processTemplate_def)

theorem C6_conditional_dropped_witness:
  "Contains ''v{{.Version}}{{if .IsPrerelease}}-beta{{end}}'' ''{{if'' \<and>
   processTemplate ''v{{.Version}}{{if .IsPrerelease}}-beta{{end}}'' ctx_231 = '''' \<and>
   processTags ([''latest''] @ ''v{{.Version}}{{if .IsPrerelease}}-beta{{end}}'' # [''{{.TagName}}''])
     ctx_231 = [''latest'', ''v2.3.1'']"
proof -
  have h: "Contains ''v{{.Version}}{{if .IsPrerelease}}-beta{{end}}'' ''{{if''"
    by (simp add: HasPrefix_def)
  have "processTags ([''latest''] @ [''{{.TagName}}'']) ctx_231 = [''latest'', ''v2.3.1'']"
    by (simp add: processTags_def processTemplate_def ctx_231_def HasPrefix_def)
  with C6_conditional_dropped[OF h, of ctx_231 "[''latest'']" "[''{{.TagName}}'']"] h
  show ?thesis by simp
qed

text \<open>
  C10, as stated: with an empty branch, every template that contains \<open>{{.Branch}}\<close> is kept
  with the placeholder in it. A template that also contains \<open>{{if\<close> is dropped.
\<close>

theorem C10_branch_conditional_counterexample:
  "Branch ctx_231 = '''' \<and>
   Contains ''{{if .IsPrerelease}}{{.Branch}}{{end}}'' ''{{.Branch}}'' \<and>
   processTags [''{{if .IsPrerelease}}{{.Branch}}{{end}}''] ctx_231 = []"
  by (simp add: processTags_def processTemplate_def ctx_231_def HasPrefix_def)

text \<open>
  C10, amended: if the branch of the context is empty, then for every template that
  contains \<open>{{.Branch}}\<close> and does not contain the marker \<open>{{if\<close>, the resolved tag still
  contains the text \<open>{{.Branch}}\<close>, is not empty, and is in the output of tag resolution
  for every list that has the template.
\<close>

theorem C10_branch_kept:
  assumes "Branch ctx = ''''" and "Contains tmpl ''{{.Branch}}''"
    and "\<not> Contains tmpl ''{{if''"
  shows "Contains (processTemplate tmpl ctx) ''{{.Branch}}'' \<and>
         processTemplate tmpl ctx \<noteq> '''' \<and>
         processTags [tmpl] ctx = [processTemplate tmpl ctx] \<and>
         (tmpl \<in> set tags \<longrightarrow> processTemplate tmpl ctx \<in> set (processTags tags ctx))"
proof -
  let ?r1 = "ReplaceAll tmpl ''{{.Version}}'' (Version ctx)"
  let ?r2 = "ReplaceAll ?r1 ''{{.PreviousVersion}}'' (PreviousVersion ctx)"
  let ?r3 = "ReplaceAll ?r2 ''{{.TagName}}'' (TagName ctx)"
  let ?r4 = "ReplaceAll ?r3 ''{{.ReleaseType}}'' (ReleaseType ctx)"
  have c1: "Contains ?r1 ''{{.Branch}}''"
    by (rule Contains_ReplaceAll[OF _ apart_Version assms(2)]) simp
  have c2: "Contains ?r2 ''{{.Branch}}''"
    by (rule Contains_ReplaceAll[OF _ apart_PreviousVersion c1]) simp
  have c3: "Contains ?r3 ''{{.Branch}}''"
    by (rule Contains_ReplaceAll[OF _ apart_TagName c2]) simp
  have "Contains ?r4 ''{{.Branch}}''"
    by (rule Contains_ReplaceAll[OF _ apart_ReleaseType c3]) simp
  moreover have r: "processTemplate tmpl ctx = ?r4"
    using assms(1,3) by (rule processTemplate_no_branch)
  ultimately have c: "Contains (processTemplate tmpl ctx) ''{{.Branch}}''" by simp
  then have ne: "processTemplate tmpl ctx \<noteq> ''''"
    using Contains_nonempty by fastforce
  then have "processTags [tmpl] ctx = [processTemplate tmpl ctx]"
    by (simp add: processTags_eq)
  moreover have "tmpl \<in> set tags \<longrightarrow> processTemplate tmpl ctx \<in> set (processTags tags ctx)"
    using ne by (auto simp: processTags_eq)
  ultimately show ?thesis using c ne by blast
qed

theorem C10_branch_kept_witness:
  "Branch ctx_231 = '''' \<and> Contains ''{{.Version}}-{{.Branch}}'' ''{{.Branch}}'' \<and>
   \<not> Contains ''{{.Version}}-{{.Branch}}'' ''{{if'' \<and>
   Contains (processTemplate ''{{.Version}}-{{.Branch}}'' ctx_231) ''{{.Branch}}'' \<and>
   processTags [''{{.Version}}-{{.Branch}}''] ctx_231 = [''2.3.1-{{.Branch}}'']"
proof -
  have h1: "Branch ctx_231 = ''''" by (simp add: ctx_231_def)
  have h2: "Contains ''{{.Version}}-{{.Branch}}'' ''{{.Branch}}''" by (simp add: HasPrefix_def)
  have h3: "\<not> Contains ''{{.Version}}-{{.Branch}}'' ''{{if''" by (simp add: HasPrefix_def)
  have v: "processTemplate ''{{.Version}}-{{.Branch}}'' ctx_231 = ''2.3.1-{{.Branch}}''"
    by (simp add: processTemplate_def ctx_231_def HasPrefix_def)
  from C10_branch_kept[OF h1 h2 h3, of "[]"] h1 h2 h3 v show ?thesis by simp
qed

section \<open>The registry endpoint\<close>

text \<open>
  C4: the resolved registry host of a name is the name itself when it ends with
  \<open>.azurecr.io\<close> and the name followed by \<open>.azurecr.io\<close> otherwise, and resolving the
  resolved host again changes nothing.
\<close>

theorem C4_GetRegistryURL_idempotent:
  "GetRegistryURL (NewACRClient (GetRegistryURL (NewACRClient r))) = GetRegistryURL (NewACRClient r) \<and>
   GetRegistryURL (NewACRClient r) = (if suffix ''.azurecr.io'' r then r else r @ ''.azurecr.io'')"
proof -
  have e: "GetRegistryURL (NewACRClient x) =
           (if suffix ''.azurecr.io'' x then x else x @ ''.azurecr.io'')" for x
    unfolding GetRegistryURL_def NewACRClient_def HasSuffix_iff_suffix by simp
  have s: "suffix ''.azurecr.io'' (GetRegistryURL (NewACRClient r))"
    unfolding e by (simp add: suffix_def)
  have "GetRegistryURL (NewACRClient (GetRegistryURL (NewACRClient r))) =
        GetRegistryURL (NewACRClient r)"
    using s e[of "GetRegistryURL (NewACRClient r)"] by simp
  then show ?thesis using e[of r] by blast
qed

section \<open>Validation\<close>

lemma parseConfig_empty:
  "parseConfig getenv Map.empty =
     \<lparr>Registry = '''', Repository = '''', Image = '''', AuthMethod = ''azure_cli'',
      ClientID_cfg = '''', ClientSecret_cfg = '''', TenantID_cfg = '''', Username_cfg = '''',
      Password_cfg = '''', SourceImage = '''', Tags = [''{{.Version}}''], DryRun = False\<rparr>"
  by (simp add: parseConfig_def GetString_def GetStringSlice_def GetBool_def)

text \<open>
  C7: for the empty configuration map, whatever the environment, \<open>Validate\<close> returns one
  response with exactly three errors, for the fields \<open>registry\<close>, \<open>image\<close> and
  \<open>source_image\<close> in this order; there is no error for \<open>auth.method\<close>, the method being
  \<open>azure_cli\<close>.
\<close>

theorem C7_Validate_empty:
  "Validate getenv Map.empty =
     \<lparr>Valid = False,
      Errors = [\<lparr>Field = ''registry'', Message = ''ACR registry name is required''\<rparr>,
                \<lparr>Field = ''image'', Message = ''image name is required''\<rparr>,
                \<lparr>Field = ''source_image'', Message = ''source image is required''\<rparr>]\<rparr> \<and>
   length (Errors (Validate getenv Map.empty)) = 3 \<and>
   AuthMethod (parseConfig getenv Map.empty) = ''azure_cli''"
proof -
  let ?cfg = "parseConfig getenv Map.empty"
  have c: "Registry ?cfg = ''''" "Image ?cfg = ''''" "SourceImage ?cfg = ''''"
    "AuthMethod ?cfg = ''azure_cli''"
    by (simp_all add: parseConfig_empty)
  have "Validate getenv Map.empty =
     \<lparr>Valid = False,
      Errors = [\<lparr>Field = ''registry'', Message = ''ACR registry name is required''\<rparr>,
                \<lparr>Field = ''image'', Message = ''image name is required''\<rparr>,
                \<lparr>Field = ''source_image'', Message = ''source image is required''\<rparr>]\<rparr>"
    unfolding Validate_def Let_def c
    by (simp add: NewValidationBuilder_def AddError_def Build_def)
  then show ?thesis using c(4) by simp
qed

section \<open>Authentication\<close>

text \<open>Each handler as one step: its invocation, and the error it makes of a failure.\<close>

lemma authenticateAzureCLI_eq:
  "authenticateAzureCLI w c s =
     (case snd (w (Trace s) (acr_login_cmd c)) of
        None \<Rightarrow> None
      | Some e \<Rightarrow> Some (Errorf_w ''az acr login failed: '' e
                         (CHR 0x0A # fst (w (Trace s) (acr_login_cmd c)))),
      s\<lparr>Trace := Trace s @ [acr_login_cmd c]\<rparr>)"
  by (simp add: authenticateAzureCLI_def CombinedOutput_def acr_login_cmd_def Let_def
      split: prod.splits option.splits)

lemma authenticateManagedIdentity_eq:
  "authenticateManagedIdentity w c s =
     (case snd (w (Trace s) (acr_login_cmd c)) of
        None \<Rightarrow> None
      | Some e \<Rightarrow> Some (Errorf_w ''az acr login with managed identity failed: '' e
                         (CHR 0x0A # fst (w (Trace s) (acr_login_cmd c)))),
      s\<lparr>Trace := Trace s @ [acr_login_cmd c]\<rparr>)"
  by (simp add: authenticateManagedIdentity_def CombinedOutput_def acr_login_cmd_def Let_def
      split: prod.splits option.splits)

lemma authenticateAdmin_eq:
  "authenticateAdmin w c a s =
     (case snd (w (Trace s) (docker_login_cmd c a)) of
        None \<Rightarrow> None
      | Some e \<Rightarrow> Some (Errorf_w ''docker login failed: '' e
                         (CHR 0x0A # fst (w (Trace s) (docker_login_cmd c a)))),
      s\<lparr>Trace := Trace s @ [docker_login_cmd c a]\<rparr>)"
  by (simp add: authenticateAdmin_def CombinedOutput_def docker_login_cmd_def CommandContext_def
      Let_def split: prod.splits option.splits)

lemma authenticateAzureCLI_run:
  "run_cmds w (Trace s) [acr_login_cmd c] =
   (Trace (snd (authenticateAzureCLI w c s)), fst (authenticateAzureCLI w c s) = None)"
  by (simp add: authenticateAzureCLI_eq split: option.splits)

lemma authenticateManagedIdentity_run:
  "run_cmds w (Trace s) [acr_login_cmd c] =
   (Trace (snd (authenticateManagedIdentity w c s)), fst (authenticateManagedIdentity w c s) = None)"
  by (simp add: authenticateManagedIdentity_eq split: option.splits)

lemma authenticateAdmin_run:
  "run_cmds w (Trace s) [docker_login_cmd c a] =
   (Trace (snd (authenticateAdmin w c a s)), fst (authenticateAdmin w c a s) = None)"
  by (simp add: authenticateAdmin_eq split: option.splits)

lemma authenticateServicePrincipal_eq:
  "authenticateServicePrincipal w c a s =
     (case snd (w (Trace s) (az_login_cmd a)) of
        None \<Rightarrow> authenticateAzureCLI w c (s\<lparr>Trace := Trace s @ [az_login_cmd a]\<rparr>)
      | Some e \<Rightarrow>
          (Some (Errorf_w ''azure login failed: '' e (CHR 0x0A # fst (w (Trace s) (az_login_cmd a)))),
           s\<lparr>Trace := Trace s @ [az_login_cmd a]\<rparr>))"
  by (auto simp: authenticateServicePrincipal_def CombinedOutput_def az_login_cmd_def Let_def
      split: prod.splits option.splits)

lemma authenticateServicePrincipal_run:
  "run_cmds w (Trace s) [az_login_cmd a, acr_login_cmd c] =
   (Trace (snd (authenticateServicePrincipal w c a s)),
    fst (authenticateServicePrincipal w c a s) = None)"
  by (simp add: authenticateServicePrincipal_eq authenticateAzureCLI_eq split: option.splits)

lemma Authenticate_run:
  "Trace (snd (Authenticate w c (Some a) s)) = fst (run_cmds w (Trace s) (auth_cmds c a)) \<and>
   (fst (Authenticate w c (Some a) s) = None \<longrightarrow> snd (run_cmds w (Trace s) (auth_cmds c a)))"
proof -
  consider (cli) "Method a = ''azure_cli'' \<or> Method a = ''''"
    | (sp) "Method a = ''service_principal''"
    | (admin) "Method a = ''admin''"
    | (mi) "Method a = ''managed_identity''"
    | (other) "Method a \<noteq> ''azure_cli''" "Method a \<noteq> ''''" "Method a \<noteq> ''service_principal''"
        "Method a \<noteq> ''admin''" "Method a \<noteq> ''managed_identity''"
    by blast
  then show ?thesis
  proof cases
    case cli
    then have *: "Authenticate w c (Some a) s = authenticateAzureCLI w c s"
      "auth_cmds c a = [acr_login_cmd c]"
      by (auto simp: Authenticate_def auth_cmds_def)
    show ?thesis unfolding * authenticateAzureCLI_run by simp
  next
    case sp
    then have *: "Authenticate w c (Some a) s = authenticateServicePrincipal w c a s"
      "auth_cmds c a = [az_login_cmd a, acr_login_cmd c]"
      by (auto simp: Authenticate_def auth_cmds_def)
    show ?thesis unfolding * authenticateServicePrincipal_run by simp
  next
    case admin
    then have *: "Authenticate w c (Some a) s = authenticateAdmin w c a s"
      "auth_cmds c a = [docker_login_cmd c a]"
      by (auto simp: Authenticate_def auth_cmds_def)
    show ?thesis unfolding * authenticateAdmin_run by simp
  next
    case mi
    then have *: "Authenticate w c (Some a) s = authenticateManagedIdentity w c s"
      "auth_cmds c a = [acr_login_cmd c]"
      by (auto simp: Authenticate_def auth_cmds_def)
    show ?thesis unfolding * authenticateManagedIdentity_run by simp
  next
    case other
    then show ?thesis by (simp add: Authenticate_def auth_cmds_def)
  qed
qed

text \<open>
  For a method that \<open>Authenticate\<close> knows, it is exactly a run of the commands of the
  method; for any other method it returns an error without any invocation.
\<close>

lemma Authenticate_run_known:
  assumes "known_method (Method a)"
  shows "run_cmds w (Trace s) (auth_cmds c a) =
         (Trace (snd (Authenticate w c (Some a) s)), fst (Authenticate w c (Some a) s) = None)"
proof -
  from assms consider (cli) "Method a = ''azure_cli'' \<or> Method a = ''''"
    | (sp) "Method a = ''service_principal''"
    | (admin) "Method a = ''admin''"
    | (mi) "Method a = ''managed_identity''"
    unfolding known_method_def by auto
  then show ?thesis
  proof cases
    case cli
    then have *: "Authenticate w c (Some a) s = authenticateAzureCLI w c s"
      "auth_cmds c a = [acr_login_cmd c]"
      by (auto simp: Authenticate_def auth_cmds_def)
    show ?thesis unfolding * by (rule authenticateAzureCLI_run)
  next
    case sp
    then have *: "Authenticate w c (Some a) s = authenticateServicePrincipal w c a s"
      "auth_cmds c a = [az_login_cmd a, acr_login_cmd c]"
      by (auto simp: Authenticate_def auth_cmds_def)
    show ?thesis unfolding * by (rule authenticateServicePrincipal_run)
  next
    case admin
    then have *: "Authenticate w c (Some a) s = authenticateAdmin w c a s"
      "auth_cmds c a = [docker_login_cmd c a]"
      by (auto simp: Authenticate_def auth_cmds_def)
    show ?thesis unfolding * by (rule authenticateAdmin_run)
  next
    case mi
    then have *: "Authenticate w c (Some a) s = authenticateManagedIdentity w c s"
      "auth_cmds c a = [acr_login_cmd c]"
      by (auto simp: Authenticate_def auth_cmds_def)
    show ?thesis unfolding * by (rule authenticateManagedIdentity_run)
  qed
qed

lemma Authenticate_unknown:
  "\<not> known_method (Method a) \<Longrightarrow>
   Authenticate w c (Some a) s = (Some (New (''unknown auth method: '' @ Method a)), s)"
  by (simp add: Authenticate_def known_method_def)

text \<open>
  C8: the admin strategy makes exactly one invocation: \<open>docker\<close> with the arguments
  \<open>login\<close>, the resolved registry host, \<open>-u\<close>, the username and \<open>--password-stdin\<close>, and with
  the password as its standard input. The host and the username are among the
  arguments; the password is not passed as an argument: the arguments are the same
  for every other password \<open>p\<close>, and the password is none of them unless it is equal to
  one of the five strings above. \<open>Authenticate\<close> runs this strategy for the method \<open>admin\<close>.
\<close>

theorem C8_admin_password_stdin:
  "Trace (snd (authenticateAdmin w c auth s)) =
     Trace s @ [\<lparr>Name = ''docker'',
                 Arg = [''login'', GetRegistryURL c, ''-u'', Username auth, ''--password-stdin''],
                 Stdin = Some (Password auth)\<rparr>] \<and>
   GetRegistryURL c \<in> set (Arg (last (Trace (snd (authenticateAdmin w c auth s))))) \<and>
   Username auth \<in> set (Arg (last (Trace (snd (authenticateAdmin w c auth s))))) \<and>
   Arg (last (Trace (snd (authenticateAdmin w c (auth\<lparr>Password := p\<rparr>) s)))) =
     Arg (last (Trace (snd (authenticateAdmin w c auth s)))) \<and>
   (Password auth \<notin> {''login'', GetRegistryURL c, ''-u'', Username auth, ''--password-stdin''} \<longrightarrow>
      Password auth \<notin> set (Arg (last (Trace (snd (authenticateAdmin w c auth s)))))) \<and>
   Stdin (last (Trace (snd (authenticateAdmin w c auth s)))) = Some (Password auth) \<and>
   (Method auth = ''admin'' \<longrightarrow>
      Authenticate w c (Some auth) s = authenticateAdmin w c auth s)"
  by (simp add: authenticateAdmin_eq docker_login_cmd_def Authenticate_def)

theorem C8_admin_password_stdin_witness:
  "Method auth_admin = ''admin'' \<and>
   Password auth_admin \<notin>
     {''login'', GetRegistryURL client_my, ''-u'', Username auth_admin, ''--password-stdin''} \<and>
   Trace (snd (Authenticate w_ok client_my (Some auth_admin) start)) =
     [\<lparr>Name = ''docker'',
       Arg = [''login'', ''myregistry.azurecr.io'', ''-u'', ''admin'', ''--password-stdin''],
       Stdin = Some ''s3cret''\<rparr>] \<and>
   Password auth_admin \<notin>
     set (Arg (last (Trace (snd (Authenticate w_ok client_my (Some auth_admin) start)))))"
proof -
  have h: "Method auth_admin = ''admin''" by (simp add: auth_admin_def)
  have u: "GetRegistryURL client_my = ''myregistry.azurecr.io''"
    by (simp add: GetRegistryURL_def client_my_def NewACRClient_def HasSuffix_def)
  have n: "Password auth_admin \<notin>
           {''login'', GetRegistryURL client_my, ''-u'', Username auth_admin, ''--password-stdin''}"
    unfolding u by (simp add: auth_admin_def)
  note t = C8_admin_password_stdin[of w_ok client_my auth_admin start]
  from t h have e: "Authenticate w_ok client_my (Some auth_admin) start =
                    authenticateAdmin w_ok client_my auth_admin start" by blast
  from t have 1: "Trace (snd (authenticateAdmin w_ok client_my auth_admin start)) =
      Trace start @ [\<lparr>Name = ''docker'',
         Arg = [''login'', GetRegistryURL client_my, ''-u'', Username auth_admin, ''--password-stdin''],
         Stdin = Some (Password auth_admin)\<rparr>]" by blast
  then have 2: "Trace (snd (authenticateAdmin w_ok client_my auth_admin start)) =
     [\<lparr>Name = ''docker'',
       Arg = [''login'', ''myregistry.azurecr.io'', ''-u'', ''admin'', ''--password-stdin''],
       Stdin = Some ''s3cret''\<rparr>]"
    unfolding u by (simp add: auth_admin_def start_def)
  from t n have 3: "Password auth_admin \<notin>
      set (Arg (last (Trace (snd (authenticateAdmin w_ok client_my auth_admin start)))))" by blast
  from h n 2 3 show ?thesis unfolding e by blast
qed

text \<open>
  C9, as stated: the managed-identity handler and the Azure-CLI handler produce the same
  result for every outcome of the external process. When the process fails, the two
  errors differ.
\<close>

theorem C9_same_result_counterexample:
  "fst (authenticateManagedIdentity w_fail client_my start) \<noteq>
   fst (authenticateAzureCLI w_fail client_my start)"
  by (simp add: authenticateManagedIdentity_eq authenticateAzureCLI_eq w_fail_def Errorf_w_def)

text \<open>
  C9, amended: for every registry name and every outcome of the external process, the two
  handlers issue the same single invocation, \<open>az acr login --name\<close> with the registry short
  name, leave the same state, and succeed or fail together; when the process fails,
  both errors wrap the error of the process and carry its output, the message of one
  starting with \<open>az acr login failed: \<close> and that of the other with
  \<open>az acr login with managed identity failed: \<close>.
\<close>

theorem C9_managed_identity_same_invocation:
  "snd (authenticateManagedIdentity w c s) = snd (authenticateAzureCLI w c s) \<and>
   Trace (snd (authenticateManagedIdentity w c s)) =
     Trace s @ [\<lparr>Name = ''az'', Arg = [''acr'', ''login'', ''--name'', registry c], Stdin = None\<rparr>] \<and>
   (fst (authenticateManagedIdentity w c s) = None \<longleftrightarrow> fst (authenticateAzureCLI w c s) = None) \<and>
   (case w (Trace s) \<lparr>Name = ''az'', Arg = [''acr'', ''login'', ''--name'', registry c], Stdin = None\<rparr> of
      (output, None) \<Rightarrow>
        fst (authenticateManagedIdentity w c s) = None \<and> fst (authenticateAzureCLI w c s) = None
    | (output, Some e) \<Rightarrow>
        fst (authenticateAzureCLI w c s) =
          Some (Wrap (''az acr login failed: '' @ Error e @ [CHR 0x0A] @ output) e) \<and>
        fst (authenticateManagedIdentity w c s) =
          Some (Wrap (''az acr login with managed identity failed: '' @ Error e @ [CHR 0x0A] @ output) e))"
  by (simp add: authenticateManagedIdentity_eq authenticateAzureCLI_eq acr_login_cmd_def
      CommandContext_def Errorf_w_def split: prod.splits option.splits)

theorem C9_managed_identity_same_invocation_witness:
  "Trace (snd (authenticateManagedIdentity w_fail client_my start)) =
     [\<lparr>Name = ''az'', Arg = [''acr'', ''login'', ''--name'', ''myregistry''], Stdin = None\<rparr>] \<and>
   Trace (snd (authenticateAzureCLI w_fail client_my start)) =
     [\<lparr>Name = ''az'', Arg = [''acr'', ''login'', ''--name'', ''myregistry''], Stdin = None\<rparr>] \<and>
   fst (authenticateManagedIdentity w_fail client_my start) \<noteq> None \<and>
   fst (authenticateAzureCLI w_fail client_my start) \<noteq> None"
proof -
  let ?cmd = "\<lparr>Name = ''az'', Arg = [''acr'', ''login'', ''--name'', ''myregistry''], Stdin = None\<rparr>"
  have e: "Trace start = []" "registry client_my = ''myregistry''"
    by (simp_all add: start_def client_my_def NewACRClient_def)
  have f: "fst (authenticateAzureCLI w_fail client_my start) \<noteq> None"
    by (simp add: authenticateAzureCLI_eq w_fail_def)
  note t = C9_managed_identity_same_invocation[of w_fail client_my start]
  from t have 1: "snd (authenticateManagedIdentity w_fail client_my start) =
                  snd (authenticateAzureCLI w_fail client_my start)" by blast
  from t have "Trace (snd (authenticateManagedIdentity w_fail client_my start)) =
      Trace start @ [\<lparr>Name = ''az'', Arg = [''acr'', ''login'', ''--name'', registry client_my],
                      Stdin = None\<rparr>]"
    by blast
  then have 2: "Trace (snd (authenticateManagedIdentity w_fail client_my start)) = [?cmd]"
    using e by simp
  from 1 2 have 3: "Trace (snd (authenticateAzureCLI w_fail client_my start)) = [?cmd]"
    by simp
  from t f have 4: "fst (authenticateManagedIdentity w_fail client_my start) \<noteq> None"
    by blast
  from 2 3 4 f show ?thesis by blast
qed

section \<open>Sequences of invocations\<close>

lemma run_cmds_prefix: "\<exists>k. fst (run_cmds w T cs) = T @ take k cs"
proof (induction cs arbitrary: T)
  case Nil
  then show ?case by simp
next
  case (Cons c cs)
  show ?case
  proof (cases "snd (w T c)")
    case None
    from Cons.IH[of "T @ [c]"] obtain k where "fst (run_cmds w (T @ [c]) cs) = (T @ [c]) @ take k cs"
      by blast
    then have "fst (run_cmds w T (c # cs)) = T @ take (Suc k) (c # cs)"
      using None by simp
    then show ?thesis by blast
  next
    case (Some e)
    then have "fst (run_cmds w T (c # cs)) = T @ take (Suc 0) (c # cs)" by simp
    then show ?thesis by blast
  qed
qed

lemma run_cmds_all: "snd (run_cmds w T cs) \<Longrightarrow> fst (run_cmds w T cs) = T @ cs"
  by (induction cs arbitrary: T) (auto split: option.splits)

lemma run_cmds_append:
  "run_cmds w T (xs @ ys) =
   (if snd (run_cmds w T xs) then run_cmds w (fst (run_cmds w T xs)) ys else run_cmds w T xs)"
  by (induction xs arbitrary: T) (auto split: option.splits)

lemma succeeded_next:
  "succeeded w ((T @ [c]) @ X) (length T) \<longleftrightarrow> snd (w T c) = None"
  by (simp add: succeeded_def nth_append)

text \<open>In a run, an invocation that fails is the last one, and the run reports a failure.\<close>

lemma run_cmds_fail_last:
  "length T \<le> i \<Longrightarrow> i < length (fst (run_cmds w T cs)) \<Longrightarrow>
   \<not> succeeded w (fst (run_cmds w T cs)) i \<Longrightarrow>
   Suc i = length (fst (run_cmds w T cs)) \<and> \<not> snd (run_cmds w T cs)"
proof (induction cs arbitrary: T)
  case Nil
  then show ?case by simp
next
  case (Cons c cs)
  show ?case
  proof (cases "snd (w T c)")
    case None
    then have r: "run_cmds w T (c # cs) = run_cmds w (T @ [c]) cs" by simp
    obtain k where k: "fst (run_cmds w (T @ [c]) cs) = (T @ [c]) @ take k cs"
      using run_cmds_prefix by blast
    have "i \<noteq> length T"
    proof
      assume "i = length T"
      then have "succeeded w (fst (run_cmds w T (c # cs))) i"
        unfolding r k using None succeeded_next by blast
      with Cons.prems(3) show False by blast
    qed
    with Cons.prems(1) have "length (T @ [c]) \<le> i" by simp
    from Cons.IH[OF this] Cons.prems(2,3) show ?thesis unfolding r by blast
  next
    case (Some e)
    then have "run_cmds w T (c # cs) = (T @ [c], False)" by simp
    with Cons.prems show ?thesis by simp
  qed
qed

section \<open>The loop of Execute\<close>

lemma Tag_eq:
  "Tag w source target s =
     (case snd (w (Trace s) (tag_cmd source target)) of
        None \<Rightarrow> None
      | Some e \<Rightarrow> Some (Errorf_w ''docker tag failed: '' e
                         (CHR 0x0A # fst (w (Trace s) (tag_cmd source target)))),
      s\<lparr>Trace := Trace s @ [tag_cmd source target]\<rparr>)"
  by (simp add: Tag_def CombinedOutput_def tag_cmd_def Let_def split: prod.splits option.splits)

lemma Push_eq:
  "Push w target s =
     (case snd (w (Trace s) (push_cmd target)) of
        None \<Rightarrow> None
      | Some e \<Rightarrow> Some (Errorf_w ''docker push failed: '' e
                         (CHR 0x0A # fst (w (Trace s) (push_cmd target)))),
      s\<lparr>Trace := Trace s @ [push_cmd target]\<rparr>)"
  by (simp add: Push_def CombinedOutput_def push_cmd_def Let_def split: prod.splits option.splits)

lemma Trace_Printf: "Trace (Printf line s) = Trace s"
  by (simp add: Printf_def)

text \<open>
  Outside dry-run the loop is a run of the planned invocations of the non-empty tags; it
  returns an error exactly when the run reports a failure.
\<close>

lemma push_loop_live:
  "\<not> DryRun cfg \<Longrightarrow>
   run_cmds w (Trace s) (planned cfg url (filter (\<lambda>t. t \<noteq> '''') tags)) =
   (Trace (snd (push_loop w cfg url tags pushed s)), \<not> isl (fst (push_loop w cfg url tags pushed s)))"
proof (induction tags arbitrary: pushed s)
  case Nil
  then show ?case by (simp add: planned_def)
next
  case (Cons tag tags)
  show ?case
  proof (cases "tag = ''''")
    case True
    then show ?thesis using Cons.IH[OF Cons.prems] by simp
  next
    case False
    let ?target = "targetImage cfg url tag"
    let ?tc = "tag_cmd (SourceImage cfg) ?target"
    let ?pc = "push_cmd ?target"
    have p: "planned cfg url (filter (\<lambda>t. t \<noteq> '''') (tag # tags)) =
             ?tc # ?pc # planned cfg url (filter (\<lambda>t. t \<noteq> '''') tags)"
      using False by (simp add: planned_def)
    show ?thesis
    proof (cases "snd (w (Trace s) ?tc)")
      case (Some e)
      then show ?thesis unfolding p using False Cons.prems
        by (simp add: Tag_eq Let_def)
    next
      case tag_ok: None
      show ?thesis
      proof (cases "snd (w (Trace s @ [?tc]) ?pc)")
        case (Some e)
        then show ?thesis unfolding p using False Cons.prems tag_ok
          by (simp add: Tag_eq Push_eq Let_def)
      next
        case push_ok: None
        let ?s2 = "Printf (''Pushed: '' @ ?target @ [CHR 0x0A])
                     (s\<lparr>Trace := Trace s @ [?tc]\<rparr>\<lparr>Trace := (Trace s @ [?tc]) @ [?pc]\<rparr>)"
        have step: "push_loop w cfg url (tag # tags) pushed s =
                    push_loop w cfg url tags (pushed @ [?target]) ?s2"
          using False Cons.prems tag_ok push_ok by (simp add: Tag_eq Push_eq Let_def)
        have t: "Trace ?s2 = (Trace s @ [?tc]) @ [?pc]" by (simp add: Trace_Printf)
        show ?thesis unfolding p step
          using Cons.IH[OF Cons.prems, of ?s2 "pushed @ [?target]"] tag_ok push_ok t by simp
      qed
    qed
  qed
qed

text \<open>In dry-run the loop makes no invocation and returns the target of every non-empty tag.\<close>

lemma push_loop_dry:
  "DryRun cfg \<Longrightarrow>
   fst (push_loop w cfg url tags pushed s) =
     Inr (pushed @ map (targetImage cfg url) (filter (\<lambda>t. t \<noteq> '''') tags)) \<and>
   Trace (snd (push_loop w cfg url tags pushed s)) = Trace s"
proof (induction tags arbitrary: pushed s)
  case Nil
  then show ?case by simp
next
  case (Cons tag tags)
  show ?case
  proof (cases "tag = ''''")
    case True
    then show ?thesis using Cons.IH[OF Cons.prems] by simp
  next
    case False
    let ?target = "targetImage cfg url tag"
    let ?s2 = "Printf (''[dry-run] Would push '' @ ?target @ [CHR 0x0A])
                (Printf (''[dry-run] Would tag '' @ SourceImage cfg @ '' as '' @ ?target @ [CHR 0x0A]) s)"
    have step: "push_loop w cfg url (tag # tags) pushed s =
                push_loop w cfg url tags (pushed @ [?target]) ?s2"
      using False Cons.prems by (simp add: Let_def)
    have t: "Trace ?s2 = Trace s" by (simp add: Trace_Printf)
    show ?thesis unfolding step
      using Cons.IH[OF Cons.prems, of "pushed @ [?target]" ?s2] False t by simp
  qed
qed

lemma targetImage_DryRun: "targetImage (cfg\<lparr>DryRun := b\<rparr>) = targetImage cfg"
  by (rule ext)+ (simp add: targetImage_def)


section \<open>Execute\<close>

lemma take_min_append: "take k xs = take (min k (length xs)) (xs @ ys)"
  by (simp add: min_def)

lemma cfg_live: "\<not> DryRun cfg \<Longrightarrow> \<not> b \<Longrightarrow> cfg\<lparr>DryRun := DryRun cfg \<or> b\<rparr> = cfg"
  by simp

lemma Execute_auth_fails:
  assumes "\<not> DryRun (parseConfig getenv (Config_req req))" and "\<not> DryRun_req req"
    and "Authenticate w (NewACRClient (Registry (parseConfig getenv (Config_req req))))
           (Some (authCfg_of (parseConfig getenv (Config_req req)))) s = (Some e, s1)"
  shows "Execute w getenv req s = (Inl (Errorf_w ''failed to authenticate with ACR: '' e ''''), s1)"
  unfolding Execute_def Let_def cfg_live[OF assms(1,2)]
  using assms by (simp add: authCfg_of_def)

lemma Execute_auth_ok:
  assumes "\<not> DryRun (parseConfig getenv (Config_req req))" and "\<not> DryRun_req req"
    and "Authenticate w (NewACRClient (Registry (parseConfig getenv (Config_req req))))
           (Some (authCfg_of (parseConfig getenv (Config_req req)))) s = (None, s1)"
    and "push_loop w (parseConfig getenv (Config_req req))
           (GetRegistryURL (NewACRClient (Registry (parseConfig getenv (Config_req req)))))
           (processTags (Tags (parseConfig getenv (Config_req req))) (Context_req req)) [] s1 = (r, s2)"
  shows "isl (fst (Execute w getenv req s)) = isl r \<and> snd (Execute w getenv req s) = s2"
  unfolding Execute_def Let_def cfg_live[OF assms(1,2)]
  using assms by (simp add: authCfg_of_def split: sum.splits)

text \<open>
  C1: outside dry-run, for every world, \<open>Execute\<close> is a run of the expected invocations
  (those of the authentication, then for each resolved tag in input order its
  \<open>docker tag\<close> followed by its \<open>docker push\<close>): for a method that \<open>Authenticate\<close> knows, it
  issues them one after the other while they succeed and stops after the first one that
  fails, and it returns an error exactly when one failed; for any other method it makes
  no invocation and returns an error. Hence the invocations made are an initial part of
  the expected ones; an invocation that fails is the last one made, so that nothing
  follows a failed tag or push, and \<open>Execute\<close> then returns an error; and when \<open>Execute\<close>
  returns no error, all expected invocations were made.
\<close>

theorem C1_Execute_fail_fast:
  assumes "\<not> DryRun (parseConfig getenv (Config_req req))" and "\<not> DryRun_req req"
  shows "(known_method (AuthMethod (parseConfig getenv (Config_req req))) \<longrightarrow>
            run_cmds w (Trace s) (expected_cmds getenv req) =
              (Trace (snd (Execute w getenv req s)), \<not> isl (fst (Execute w getenv req s)))) \<and>
         (\<not> known_method (AuthMethod (parseConfig getenv (Config_req req))) \<longrightarrow>
            Trace (snd (Execute w getenv req s)) = Trace s \<and> isl (fst (Execute w getenv req s))) \<and>
         (\<exists>k. Trace (snd (Execute w getenv req s)) = Trace s @ take k (expected_cmds getenv req)) \<and>
         (\<forall>i. length (Trace s) \<le> i \<and> i < length (Trace (snd (Execute w getenv req s))) \<and>
              \<not> succeeded w (Trace (snd (Execute w getenv req s))) i \<longrightarrow>
              Suc i = length (Trace (snd (Execute w getenv req s))) \<and>
              isl (fst (Execute w getenv req s))) \<and>
         (\<not> isl (fst (Execute w getenv req s)) \<longrightarrow>
            Trace (snd (Execute w getenv req s)) = Trace s @ expected_cmds getenv req)"
proof -
  let ?cfg = "parseConfig getenv (Config_req req)"
  let ?client = "NewACRClient (Registry ?cfg)"
  let ?a = "authCfg_of ?cfg"
  let ?url = "GetRegistryURL ?client"
  let ?tags = "processTags (Tags ?cfg) (Context_req req)"
  let ?auth = "auth_cmds ?client ?a"
  let ?plan = "planned ?cfg ?url ?tags"
  let ?E = "Execute w getenv req s"
  have ex: "expected_cmds getenv req = ?auth @ ?plan"
    by (simp add: expected_cmds_def Let_def)
  have M: "Method ?a = AuthMethod ?cfg" by (simp add: authCfg_of_def)
  obtain err s1 where A: "Authenticate w ?client (Some ?a) s = (err, s1)"
    by (cases "Authenticate w ?client (Some ?a) s") blast
  from Authenticate_run[of w ?client ?a s] A
  have T1: "Trace s1 = fst (run_cmds w (Trace s) ?auth)"
    and ok1: "err = None \<longrightarrow> snd (run_cmds w (Trace s) ?auth)"
    by simp_all
  have K: "run_cmds w (Trace s) ?auth = (Trace s1, err = None)" if "known_method (AuthMethod ?cfg)"
    using Authenticate_run_known[of ?a w s ?client] that A M by simp
  have U: "err \<noteq> None \<and> s1 = s" if "\<not> known_method (AuthMethod ?cfg)"
    using Authenticate_unknown[of ?a w ?client s] that A M by simp
  show ?thesis
  proof (cases err)
    case (Some e)
    from Execute_auth_fails[OF assms A[unfolded Some]]
    have E0: "isl (fst ?E)" "snd ?E = s1" by simp_all
    have E: "isl (fst ?E)" "Trace (snd ?E) = fst (run_cmds w (Trace s) ?auth)"
      using E0 T1 by simp_all
    have 4: "known_method (AuthMethod ?cfg) \<longrightarrow>
             run_cmds w (Trace s) (expected_cmds getenv req) = (Trace (snd ?E), \<not> isl (fst ?E))"
    proof
      assume "known_method (AuthMethod ?cfg)"
      from K[OF this] Some have "run_cmds w (Trace s) ?auth = (Trace s1, False)" by simp
      then have "run_cmds w (Trace s) (?auth @ ?plan) = (Trace s1, False)"
        unfolding run_cmds_append by simp
      then show "run_cmds w (Trace s) (expected_cmds getenv req) = (Trace (snd ?E), \<not> isl (fst ?E))"
        unfolding ex using E0 by simp
    qed
    have 5: "\<not> known_method (AuthMethod ?cfg) \<longrightarrow> Trace (snd ?E) = Trace s \<and> isl (fst ?E)"
      using U E0 by simp
    obtain k where "fst (run_cmds w (Trace s) ?auth) = Trace s @ take k ?auth"
      using run_cmds_prefix by blast
    then have "Trace (snd ?E) = Trace s @ take (min k (length ?auth)) (?auth @ ?plan)"
      using E(2) take_min_append[of k ?auth ?plan] by simp
    then have 1: "\<exists>k. Trace (snd ?E) = Trace s @ take k (expected_cmds getenv req)"
      unfolding ex by blast
    have 2: "\<forall>i. length (Trace s) \<le> i \<and> i < length (Trace (snd ?E)) \<and>
                 \<not> succeeded w (Trace (snd ?E)) i \<longrightarrow>
                 Suc i = length (Trace (snd ?E)) \<and> isl (fst ?E)"
      unfolding E(2) using run_cmds_fail_last[of "Trace s" _ w ?auth] E(1) by blast
    from 1 2 4 5 E(1) show ?thesis by blast
  next
    case None
    obtain r s2 where L: "push_loop w ?cfg ?url ?tags [] s1 = (r, s2)"
      by (cases "push_loop w ?cfg ?url ?tags [] s1") blast
    from Execute_auth_ok[OF assms A[unfolded None] L]
    have E: "isl (fst ?E) = isl r" "snd ?E = s2" by simp_all
    from push_loop_live[OF assms(1), of w s1 ?url ?tags "[]"] L
    have "run_cmds w (Trace s1) ?plan = (Trace s2, \<not> isl r)"
      by (simp add: processTags_nonempty)
    moreover have "snd (run_cmds w (Trace s) ?auth)" using ok1 None by blast
    ultimately have "run_cmds w (Trace s) (?auth @ ?plan) = (Trace s2, \<not> isl r)"
      unfolding run_cmds_append using T1 by simp
    then have R: "run_cmds w (Trace s) (expected_cmds getenv req) =
                  (Trace (snd ?E), \<not> isl (fst ?E))"
      unfolding ex using E by simp
    have 5: "\<not> known_method (AuthMethod ?cfg) \<longrightarrow> Trace (snd ?E) = Trace s \<and> isl (fst ?E)"
      using U None by blast
    have 1: "\<exists>k. Trace (snd ?E) = Trace s @ take k (expected_cmds getenv req)"
      using run_cmds_prefix[of w "Trace s" "expected_cmds getenv req"] R by simp
    have 2: "\<forall>i. length (Trace s) \<le> i \<and> i < length (Trace (snd ?E)) \<and>
                 \<not> succeeded w (Trace (snd ?E)) i \<longrightarrow>
                 Suc i = length (Trace (snd ?E)) \<and> isl (fst ?E)"
    proof (intro allI impI)
      fix i
      assume "length (Trace s) \<le> i \<and> i < length (Trace (snd ?E)) \<and>
              \<not> succeeded w (Trace (snd ?E)) i"
      with run_cmds_fail_last[of "Trace s" i w "expected_cmds getenv req"] R
      show "Suc i = length (Trace (snd ?E)) \<and> isl (fst ?E)" by simp
    qed
    have 3: "\<not> isl (fst ?E) \<longrightarrow> Trace (snd ?E) = Trace s @ expected_cmds getenv req"
      using run_cmds_all[of w "Trace s" "expected_cmds getenv req"] R by simp
    from 1 2 3 5 R show ?thesis by blast
  qed
qed

section \<open>Two runs of Execute\<close>

lemma parseConfig_two_tags:
  "parseConfig no_env raw_two_tags =
     \<lparr>Registry = ''myregistry'', Repository = '''', Image = ''myapp'', AuthMethod = ''azure_cli'',
      ClientID_cfg = '''', ClientSecret_cfg = '''', TenantID_cfg = '''', Username_cfg = '''',
      Password_cfg = '''', SourceImage = ''myapp:latest'', Tags = [''1.0.0'', ''latest''],
      DryRun = False\<rparr>"
  by (simp add: parseConfig_def raw_two_tags_def GetString_def GetStringSlice_def GetBool_def)

lemma processTags_two_tags: "processTags [''1.0.0'', ''latest''] ctx_231 = [''1.0.0'', ''latest'']"
  by (simp add: processTags_def processTemplate_def ctx_231_def HasPrefix_def Let_def)

lemma registry_NewACRClient: "registry (NewACRClient r) = r"
  by (simp add: NewACRClient_def)

lemma GetRegistryURL_my: "GetRegistryURL (NewACRClient ''myregistry'') = ''myregistry.azurecr.io''"
  by (simp add: GetRegistryURL_def NewACRClient_def HasSuffix_def)

theorem C1_Execute_fail_fast_witness:
  "\<not> DryRun (parseConfig no_env (Config_req req_live)) \<and> \<not> DryRun_req req_live \<and>
   known_method (AuthMethod (parseConfig no_env (Config_req req_live))) \<and>
   Trace (snd (Execute w_push_fails no_env req_live start)) =
     [CommandContext ''az'' [''acr'', ''login'', ''--name'', ''myregistry''],
      CommandContext ''docker'' [''tag'', ''myapp:latest'', ''myregistry.azurecr.io/myapp:1.0.0''],
      CommandContext ''docker'' [''push'', ''myregistry.azurecr.io/myapp:1.0.0'']] \<and>
   \<not> succeeded w_push_fails (Trace (snd (Execute w_push_fails no_env req_live start))) 2 \<and>
   isl (fst (Execute w_push_fails no_env req_live start))"
proof -
  let ?E = "Execute w_push_fails no_env req_live start"
  let ?az = "CommandContext ''az'' [''acr'', ''login'', ''--name'', ''myregistry'']"
  let ?tag = "CommandContext ''docker'' [''tag'', ''myapp:latest'', ''myregistry.azurecr.io/myapp:1.0.0'']"
  let ?push = "CommandContext ''docker'' [''push'', ''myregistry.azurecr.io/myapp:1.0.0'']"
  let ?tag2 = "CommandContext ''docker'' [''tag'', ''myapp:latest'', ''myregistry.azurecr.io/myapp:latest'']"
  let ?push2 = "CommandContext ''docker'' [''push'', ''myregistry.azurecr.io/myapp:latest'']"
  let ?cfg = "parseConfig no_env raw_two_tags"
  have c: "Config_req req_live = raw_two_tags" "Context_req req_live = ctx_231"
    by (simp_all add: req_live_def)
  have f: "Registry ?cfg = ''myregistry''" "Tags ?cfg = [''1.0.0'', ''latest'']"
    "\<not> DryRun ?cfg" "SourceImage ?cfg = ''myapp:latest''" "AuthMethod ?cfg = ''azure_cli''"
    by (simp_all add: parseConfig_two_tags)
  have ti: "targetImage ?cfg ''myregistry.azurecr.io'' ''1.0.0'' = ''myregistry.azurecr.io/myapp:1.0.0''"
    "targetImage ?cfg ''myregistry.azurecr.io'' ''latest'' = ''myregistry.azurecr.io/myapp:latest''"
    by (simp_all add: targetImage_def parseConfig_two_tags)
  have h1: "\<not> DryRun (parseConfig no_env (Config_req req_live))"
    unfolding c by (rule f(3))
  have h2: "\<not> DryRun_req req_live" by (simp add: req_live_def)
  have h3: "known_method (AuthMethod (parseConfig no_env (Config_req req_live)))"
    unfolding c f by (simp add: known_method_def)
  have ex: "expected_cmds no_env req_live = [?az, ?tag, ?push, ?tag2, ?push2]"
    unfolding expected_cmds_def Let_def c f GetRegistryURL_my processTags_two_tags
    by (simp add: auth_cmds_def authCfg_of_def f acr_login_cmd_def registry_NewACRClient
        planned_def ti tag_cmd_def push_cmd_def)
  have run: "run_cmds w_push_fails (Trace start) [?az, ?tag, ?push, ?tag2, ?push2] =
             ([?az, ?tag, ?push], False)"
    by (simp add: start_def w_push_fails_def CommandContext_def)
  note t = C1_Execute_fail_fast[OF h1 h2, of w_push_fails start]
  from t h3 have "run_cmds w_push_fails (Trace start) (expected_cmds no_env req_live) =
                  (Trace (snd ?E), \<not> isl (fst ?E))" by blast
  then have T: "Trace (snd ?E) = [?az, ?tag, ?push]" and e: "isl (fst ?E)"
    unfolding ex run by simp_all
  have nf: "\<not> succeeded w_push_fails (Trace (snd ?E)) 2"
    unfolding T by (simp add: succeeded_def w_push_fails_def CommandContext_def)
  from h1 h2 h3 T nf e show ?thesis by blast
qed

text \<open>
  C2: if the dry-run flag of the configuration or that of the request is set, then for
  every world \<open>Execute\<close> makes no invocation at all (the trace of invocations is the one it
  started with: no login, no tag, no push) and returns a successful response whose
  \<open>pushed_images\<close> are the target references of the resolved tags, in their order.
\<close>

theorem C2_Execute_dry_run:
  assumes "DryRun (parseConfig getenv (Config_req req)) \<or> DryRun_req req"
  shows "Trace (snd (Execute w getenv req s)) = Trace s \<and>
         (\<exists>resp. fst (Execute w getenv req s) = Inr resp \<and> Success resp \<and>
            Outputs resp ''pushed_images'' =
              Some (AStrings (map (targetImage (parseConfig getenv (Config_req req))
                                     (GetRegistryURL (NewACRClient (Registry (parseConfig getenv (Config_req req))))))
                                  (processTags (Tags (parseConfig getenv (Config_req req)))
                                     (Context_req req)))))"
proof -
  let ?parsed = "parseConfig getenv (Config_req req)"
  let ?cfg = "?parsed\<lparr>DryRun := DryRun ?parsed \<or> DryRun_req req\<rparr>"
  let ?url = "GetRegistryURL (NewACRClient (Registry ?parsed))"
  let ?tags = "processTags (Tags ?parsed) (Context_req req)"
  have d: "DryRun ?cfg" using assms by simp
  have g: "Registry ?cfg = Registry ?parsed" "Tags ?cfg = Tags ?parsed" "Repository ?cfg = Repository ?parsed"
    by simp_all
  obtain r s2 where L: "push_loop w ?cfg ?url ?tags [] s = (r, s2)"
    by (cases "push_loop w ?cfg ?url ?tags [] s") blast
  from push_loop_dry[OF d, of w ?url ?tags "[]" s] L
  have r: "r = Inr (map (targetImage ?parsed ?url) ?tags)" and t: "Trace s2 = Trace s"
    by (simp_all add: targetImage_DryRun processTags_nonempty)
  have "Execute w getenv req s =
        (Inr \<lparr>Success = True,
              Message_resp = ''Successfully pushed '' @ itoa (length (map (targetImage ?parsed ?url) ?tags)) @
                             '' image(s) to ACR'',
              Outputs = [''registry'' \<mapsto> AString ?url,
                         ''repository'' \<mapsto> AString (Repository ?parsed),
                         ''tags'' \<mapsto> AStrings ?tags,
                         ''pushed_images'' \<mapsto> AStrings (map (targetImage ?parsed ?url) ?tags)]\<rparr>, s2)"
    unfolding Execute_def Let_def g using d L[unfolded r] by simp
  then show ?thesis using t by simp
qed

theorem C2_Execute_dry_run_witness:
  "(DryRun (parseConfig no_env (Config_req req_dry)) \<or> DryRun_req req_dry) \<and>
   Trace (snd (Execute w_fail no_env req_dry start)) = [] \<and>
   (\<exists>resp. fst (Execute w_fail no_env req_dry start) = Inr resp \<and> Success resp \<and>
      Outputs resp ''pushed_images'' =
        Some (AStrings [''myregistry.azurecr.io/myapp:1.0.0'', ''myregistry.azurecr.io/myapp:latest'']))"
proof -
  have c: "Config_req req_dry = raw_two_tags" "Context_req req_dry = ctx_231"
    by (simp_all add: req_dry_def)
  have h: "DryRun (parseConfig no_env (Config_req req_dry)) \<or> DryRun_req req_dry"
    by (simp add: req_dry_def)
  have f: "Registry (parseConfig no_env raw_two_tags) = ''myregistry''"
    "Tags (parseConfig no_env raw_two_tags) = [''1.0.0'', ''latest'']"
    by (simp_all add: parseConfig_two_tags)
  have m: "map (targetImage (parseConfig no_env raw_two_tags) ''myregistry.azurecr.io'') [''1.0.0'', ''latest'']
           = [''myregistry.azurecr.io/myapp:1.0.0'', ''myregistry.azurecr.io/myapp:latest'']"
    by (simp add: targetImage_def parseConfig_two_tags)
  have u: "GetRegistryURL (NewACRClient (Registry (parseConfig no_env (Config_req req_dry)))) =
           ''myregistry.azurecr.io''"
    unfolding c f by (rule GetRegistryURL_my)
  have tg: "processTags (Tags (parseConfig no_env (Config_req req_dry))) (Context_req req_dry) =
            [''1.0.0'', ''latest'']"
    unfolding c f by (rule processTags_two_tags)
  have m': "map (targetImage (parseConfig no_env (Config_req req_dry)) ''myregistry.azurecr.io'')
              [''1.0.0'', ''latest'']
            = [''myregistry.azurecr.io/myapp:1.0.0'', ''myregistry.azurecr.io/myapp:latest'']"
    unfolding c by (rule m)
  note t = C2_Execute_dry_run[OF h, of w_fail start, unfolded u tg m']
  from t have 1: "Trace (snd (Execute w_fail no_env req_dry start)) = Trace start" by blast
  have "Trace start = []" by (simp add: start_def)
  with 1 have 2: "Trace (snd (Execute w_fail no_env req_dry start)) = []" by simp
  from t have 3: "\<exists>resp. fst (Execute w_fail no_env req_dry start) = Inr resp \<and> Success resp \<and>
      Outputs resp ''pushed_images'' =
        Some (AStrings [''myregistry.azurecr.io/myapp:1.0.0'', ''myregistry.azurecr.io/myapp:latest''])"
    by blast
  from h 2 3 show ?thesis by blast
qed

end
